theory Spec2Isabelle
  imports Main "HOL-Library.Multiset" "HOL-Library.Char_ord" "HOL-Library.List_Lexorder"
begin

section \<open>The trafic.json structure checker (check\_structure\_trafic.py)\<close>

text \<open>
  The script reads a JSON Schema, finds every \<^verbatim>\<open>trafic.json\<close> below a directory, parses
  and validates each of them and prints a report. Everything it does beyond that is done by
  libraries: \<^verbatim>\<open>pathlib\<close> (existence test, recursive search), \<^verbatim>\<open>json\<close> (the parser) and
  \<^verbatim>\<open>jsonschema\<close> (the validator). The libraries and the file system are the fields of the
  record \<open>env\<close>; each call that can raise returns a sum, \<open>Inl\<close> the exception. The script's
  own functions are translated one by one and keep their names.
\<close>

subsection \<open>Python values the script handles\<close>

text \<open>
  An exception, as far as the script looks at it: \<^verbatim>\<open>str(exc)\<close> is all it reads.
  \<open>Exception\<close> stands for every subclass of Python's \<^verbatim>\<open>Exception\<close> with its message;
  \<open>TypeError\<close> is the one \<^verbatim>\<open>sorted\<close> raises when two keys cannot be compared. Its message
  names the types of the two operands, string and integer in the order in which the sort
  met them; the script never catches this exception, so that the text is never printed by
  it.
\<close>

datatype exn = Exception string | TypeError

definition not_supported :: string where
  "not_supported =
     [CHR 0x27] @ ''<'' @ [CHR 0x27] @ '' not supported between instances of ''
       @ [CHR 0x27] @ ''str'' @ [CHR 0x27] @ '' and '' @ [CHR 0x27] @ ''int'' @ [CHR 0x27]"

fun str_exn :: "exn \<Rightarrow> string" where
  "str_exn (Exception m) = m"
| "str_exn TypeError = not_supported"

text \<open>
  A \<^verbatim>\<open>pathlib.Path\<close> of the POSIX flavour is its tuple of parts, an absolute path
  starting with the root as its first part (\<^verbatim>\<open>/\<close>, or \<^verbatim>\<open>//\<close> when the path was written
  with exactly two leading slashes). Paths compare as their tuples of parts do, strings by code
  point: this is the order of \<open>string list\<close> given by the lexicographic order on lists over
  the byte order on characters.
\<close>

type_synonym posix_path = "string list"

fun str_join :: "string \<Rightarrow> string list \<Rightarrow> string" where
  "str_join sep [] = []"
| "str_join sep [x] = x"
| "str_join sep (x # y # ys) = x @ sep @ str_join sep (y # ys)"

definition str_path :: "posix_path \<Rightarrow> string" where
  "str_path p =
     (case p of
        [] \<Rightarrow> ''.''
      | x # xs \<Rightarrow>
          if x = ''/'' \<or> x = ''//'' then x @ str_join ''/'' xs else str_join ''/'' (x # xs))"

definition path_div :: "posix_path \<Rightarrow> string \<Rightarrow> posix_path" where
  "path_div p name = p @ [name]"

text \<open>Decimal rendering of Python's unbounded integers, \<^verbatim>\<open>str(n)\<close>.\<close>

definition digit_char :: "nat \<Rightarrow> char" where
  "digit_char d = char_of (48 + d)"

function str_nat :: "nat \<Rightarrow> string" where
  "str_nat n = (if n < 10 then [digit_char n] else str_nat (n div 10) @ [digit_char (n mod 10)])"
  by pat_completeness auto
termination
  by (relation "measure id") auto

definition str_int :: "int \<Rightarrow> string" where
  "str_int i = (if i < 0 then ''-'' @ str_nat (nat (- i)) else str_nat (nat i))"

subsection \<open>Validation errors and their order\<close>

text \<open>
  One element of a \<^verbatim>\<open>jsonschema\<close> error path: a property name or an array index.
\<close>

datatype seg = Key string | Idx int

fun str_seg :: "seg \<Rightarrow> string" where
  "str_seg (Key k) = k"
| "str_seg (Idx i) = str_int i"

text \<open>
  The attributes of a \<^verbatim>\<open>ValidationError\<close> the script reads: \<^verbatim>\<open>path\<close> (the sort key),
  \<^verbatim>\<open>absolute_path\<close> (rendered as the location) and \<^verbatim>\<open>message\<close>.
\<close>

record verror =
  path :: "seg list"
  absolute_path :: "seg list"
  message :: string

text \<open>
  Python's \<^verbatim>\<open><\<close> on two path elements: strings by code point, integers by value, and a
  \<^verbatim>\<open>TypeError\<close> between a string and an integer.
\<close>

fun seg_lt :: "seg \<Rightarrow> seg \<Rightarrow> exn + bool" where
  "seg_lt (Key a) (Key b) = Inr (a < b)"
| "seg_lt (Idx i) (Idx j) = Inr (i < j)"
| "seg_lt (Key a) (Idx j) = Inl TypeError"
| "seg_lt (Idx i) (Key b) = Inl TypeError"

text \<open>
  Python's \<^verbatim>\<open><\<close> on two deques: the first pair of unequal elements decides, by \<^verbatim>\<open><\<close> on
  that pair; when one deque is exhausted first, the shorter one is the smaller.
\<close>

fun deque_lt :: "seg list \<Rightarrow> seg list \<Rightarrow> exn + bool" where
  "deque_lt [] [] = Inr False"
| "deque_lt [] (y # ys) = Inr True"
| "deque_lt (x # xs) [] = Inr False"
| "deque_lt (x # xs) (y # ys) = (if x = y then deque_lt xs ys else seg_lt x y)"

definition comparable :: "seg list \<Rightarrow> seg list \<Rightarrow> bool" where
  "comparable p q = (deque_lt p q \<noteq> Inl TypeError \<and> deque_lt q p \<noteq> Inl TypeError)"

text \<open>
  A linear order on path elements that agrees with \<open>seg_lt\<close> wherever Python's comparison
  is defined (indices before names where it is not), so that the library's stable
  \<open>sort_key\<close> can stand for \<^verbatim>\<open>sorted\<close> on comparable keys.
\<close>

instantiation seg :: linorder
begin

fun less_seg :: "seg \<Rightarrow> seg \<Rightarrow> bool" where
  "less_seg (Key a) (Key b) = (a < b)"
| "less_seg (Idx i) (Idx j) = (i < j)"
| "less_seg (Idx i) (Key b) = True"
| "less_seg (Key a) (Idx j) = False"

definition less_eq_seg :: "seg \<Rightarrow> seg \<Rightarrow> bool" where
  "less_eq_seg x y = (x < y \<or> x = y)"

instance
proof
  fix x y z :: seg
  show "(x < y) = (x \<le> y \<and> \<not> y \<le> x)"
    by (cases x; cases y) (auto simp: less_eq_seg_def)
  show "x \<le> x"
    by (simp add: less_eq_seg_def)
  show "x \<le> y \<Longrightarrow> y \<le> z \<Longrightarrow> x \<le> z"
    by (cases x; cases y; cases z) (auto simp: less_eq_seg_def)
  show "x \<le> y \<Longrightarrow> y \<le> x \<Longrightarrow> x = y"
    by (cases x; cases y) (auto simp: less_eq_seg_def)
  show "x \<le> y \<or> y \<le> x"
    by (cases x; cases y) (auto simp: less_eq_seg_def)
qed

end

text \<open>
  \<^verbatim>\<open>sorted(errors, key=lambda e: e.path)\<close>. Python's sort is stable and uses only \<^verbatim>\<open><\<close>
  on the keys. It raises exactly when two of the keys are not comparable: a run in which
  every comparison made is defined would be the same run under the order that puts
  indices before names and under the one that puts names before indices, and its result
  would be sorted for both, which two incomparable keys exclude.
\<close>

definition sorted_by_path :: "verror list \<Rightarrow> exn + verror list" where
  "sorted_by_path errs =
     (if list_all (\<lambda>e. list_all (\<lambda>e'. comparable (path e) (path e')) errs) errs
      then Inr (sort_key path errs)
      else Inl TypeError)"

subsection \<open>The environment: file system and libraries\<close>

text \<open>
  \<open>'j\<close> is the type of parsed JSON documents; the script never looks inside one.
  \<^item> \<open>fs_exists\<close>: \<^verbatim>\<open>Path.exists()\<close>;
  \<^item> \<open>rglob\<close>: \<^verbatim>\<open>list(Path.rglob(pattern))\<close>, in the order the operating system lists
    the directory entries;
  \<^item> \<open>read_text\<close>: opening a file for reading as UTF-8 and reading all of it;
  \<^item> \<open>json_loads\<close>: the JSON parser;
  \<^item> \<open>iter_errors\<close>: \<^verbatim>\<open>Draft7Validator(schema, format_checker=FormatChecker()).iter_errors(instance)\<close>,
    all of it; the library raises on some schemas (an unknown type name, a bad regular
    expression, a reference that does not resolve).
\<close>

record 'j env =
  fs_exists :: "posix_path \<Rightarrow> bool"
  rglob :: "posix_path \<Rightarrow> string \<Rightarrow> posix_path list"
  read_text :: "posix_path \<Rightarrow> exn + string"
  json_loads :: "string \<Rightarrow> exn + 'j"
  iter_errors :: "'j \<Rightarrow> 'j \<Rightarrow> exn + verror list"

subsection \<open>The script's functions\<close>

definition find_trafic_files :: "'j env \<Rightarrow> posix_path \<Rightarrow> posix_path list" where
  "find_trafic_files env root =
     (let logo_dir = path_div root ''logo''
      in if \<not> fs_exists env logo_dir then [] else rglob env logo_dir ''trafic.json'')"

definition load_json :: "'j env \<Rightarrow> posix_path \<Rightarrow> exn + 'j" where
  "load_json env p =
     (case read_text env p of
        Inl exc \<Rightarrow> Inl exc
      | Inr txt \<Rightarrow> json_loads env txt)"

definition location :: "verror \<Rightarrow> string" where
  "location err =
     (let joined = concat (map (\<lambda>p. ''/'' @ str_seg p) (absolute_path err))
      in if joined = [] then ''/'' else joined)"

definition error_line :: "posix_path \<Rightarrow> verror \<Rightarrow> string" where
  "error_line instance_path err =
     str_path instance_path @ '': '' @ location err @ '' -> '' @ message err"

definition validate_instance :: "'j env \<Rightarrow> 'j \<Rightarrow> 'j \<Rightarrow> posix_path \<Rightarrow> exn + string list" where
  "validate_instance env schema instance instance_path =
     (case iter_errors env schema instance of
        Inl exc \<Rightarrow> Inl exc
      | Inr found \<Rightarrow>
          (case sorted_by_path found of
             Inl exc \<Rightarrow> Inl exc
           | Inr errs \<Rightarrow> Inr (map (error_line instance_path) errs)))"

text \<open>
  The variables of the loop in \<open>main\<close> (\<open>total_c\<close> is the script's \<^verbatim>\<open>total\<close>), and
  \<open>out\<close>, the arguments of the \<^verbatim>\<open>print\<close> calls on standard output so far (one element
  per call).
\<close>

record loop_state =
  total_c :: int
  invalid :: int
  all_errors :: "string list"
  out :: "string list"

text \<open>
  One iteration of the loop. Only \<open>load_json\<close> is inside the \<^verbatim>\<open>try\<close>; an exception of
  \<open>validate_instance\<close> leaves the loop and \<open>main\<close>, with the state reached so far.
\<close>

definition check_file ::
  "'j env \<Rightarrow> bool \<Rightarrow> 'j \<Rightarrow> posix_path \<Rightarrow> loop_state \<Rightarrow> (exn \<times> loop_state) + loop_state" where
  "check_file env q schema f st =
     (let st1 = st\<lparr>total_c := total_c st + 1\<rparr>
      in case load_json env f of
           Inl exc \<Rightarrow>
             Inr (st1\<lparr>invalid := invalid st1 + 1,
                      all_errors := all_errors st1 @ [str_path f @ '': JSON parse error: '' @ str_exn exc]\<rparr>)
         | Inr instance \<Rightarrow>
             (case validate_instance env schema instance f of
                Inl exc \<Rightarrow> Inl (exc, st1)
              | Inr errors \<Rightarrow>
                  if errors \<noteq> []
                  then Inr (st1\<lparr>invalid := invalid st1 + 1, all_errors := all_errors st1 @ errors\<rparr>)
                  else if \<not> q then Inr (st1\<lparr>out := out st1 @ [''OK: '' @ str_path f]\<rparr>)
                  else Inr st1))"

fun check_files ::
  "'j env \<Rightarrow> bool \<Rightarrow> 'j \<Rightarrow> posix_path list \<Rightarrow> loop_state \<Rightarrow> (exn \<times> loop_state) + loop_state" where
  "check_files env q schema [] st = Inr st"
| "check_files env q schema (f # fs) st =
     (case check_file env q schema f st of
        Inl crash \<Rightarrow> Inl crash
      | Inr st' \<Rightarrow> check_files env q schema fs st')"

definition summary_line :: "int \<Rightarrow> int \<Rightarrow> string" where
  "summary_line n_total n_invalid =
     CHR 0x0A # ''Checked '' @ str_int n_total @ '' files: '' @ str_int (n_total - n_invalid)
       @ '' valid, '' @ str_int n_invalid @ '' invalid''"

definition error_listing :: "string list \<Rightarrow> string list" where
  "error_listing errs =
     (if errs \<noteq> [] then (CHR 0x0A # ''Validation errors:'') # map (\<lambda>e. '' - '' @ e) errs else [])"

text \<open>The parsed command line (\<^verbatim>\<open>argparse\<close> has run).\<close>

record args =
  schema :: posix_path
  root :: posix_path
  logo_dir :: "posix_path option"
  quiet :: bool

text \<open>
  What a run leaves behind: the lines printed on standard output and on standard error,
  and either the value \<open>main\<close> returns or the exception that left it.
\<close>

record outcome =
  stdout :: "string list"
  stderr :: "string list"
  ret :: "exn + int"

definition main :: "'j env \<Rightarrow> args \<Rightarrow> outcome" where
  "main env a =
     (let schema_path = schema a;
          repo_root = root a;
          logo_root = (case logo_dir a of Some d \<Rightarrow> d | None \<Rightarrow> path_div repo_root ''logo'')
      in if \<not> fs_exists env schema_path
         then \<lparr>stdout = [],
               stderr = [''ERROR: schema file not found at '' @ str_path schema_path],
               ret = Inr 2\<rparr>
         else case load_json env schema_path of
           Inl exc \<Rightarrow>
             \<lparr>stdout = [],
              stderr = [''ERROR: failed to load schema '' @ str_path schema_path @ '': '' @ str_exn exc],
              ret = Inr 2\<rparr>
         | Inr sch \<Rightarrow>
             (let files = (case logo_dir a of
                             None \<Rightarrow> find_trafic_files env repo_root
                           | Some d \<Rightarrow> rglob env d ''trafic.json'')
              in if files = []
                 then \<lparr>stdout = [''No trafic.json files found under '' @ str_path logo_root],
                       stderr = [], ret = Inr 0\<rparr>
                 else (case check_files env (quiet a) sch (sort files)
                              \<lparr>total_c = 0, invalid = 0, all_errors = [], out = []\<rparr> of
                         Inl (exc, st) \<Rightarrow> \<lparr>stdout = out st, stderr = [], ret = Inl exc\<rparr>
                       | Inr st \<Rightarrow>
                           \<lparr>stdout = out st @ error_listing (all_errors st)
                                       @ [summary_line (total_c st) (invalid st)],
                            stderr = [],
                            ret = Inr (if invalid st \<noteq> 0 then 1 else 0)\<rparr>)))"

text \<open>
  The script ends with \<^verbatim>\<open>raise SystemExit(main())\<close>: the exit status of the process is the
  value \<open>main\<close> returns, and 1 when an exception leaves \<open>main\<close>.
\<close>

definition exit_code :: "outcome \<Rightarrow> int" where
  "exit_code r = (case ret r of Inr c \<Rightarrow> c | Inl exc \<Rightarrow> 1)"

subsection \<open>Vocabulary of the properties\<close>

text \<open>
  The value of \<^verbatim>\<open>files\<close> in \<open>main\<close> (the result of discovery) and of \<^verbatim>\<open>logo_root\<close>
  (the directory searched), as functions of the environment and the arguments.
\<close>

definition discovered :: "'j env \<Rightarrow> args \<Rightarrow> posix_path list" where
  "discovered env a =
     (case logo_dir a of
        None \<Rightarrow> find_trafic_files env (root a)
      | Some d \<Rightarrow> rglob env d ''trafic.json'')"

definition search_dir :: "args \<Rightarrow> posix_path" where
  "search_dir a = (case logo_dir a of Some d \<Rightarrow> d | None \<Rightarrow> path_div (root a) ''logo'')"

definition schema_loaded :: "'j env \<Rightarrow> args \<Rightarrow> 'j \<Rightarrow> bool" where
  "schema_loaded env a sch = (fs_exists env (schema a) \<and> load_json env (schema a) = Inr sch)"

definition init_state :: loop_state where
  "init_state = \<lparr>total_c = 0, invalid = 0, all_errors = [], out = []\<rparr>"

text \<open>
  What one file is for the loop: the exception it makes \<open>validate_instance\<close> raise, if any
  (\<open>file_crash\<close>); invalid, when it does not parse or has at least one violation; clean,
  when it parses and has none; and the error lines it contributes.
\<close>

definition file_crash :: "'j env \<Rightarrow> 'j \<Rightarrow> posix_path \<Rightarrow> exn option" where
  "file_crash env sch f =
     (case load_json env f of
        Inl exc \<Rightarrow> None
      | Inr instance \<Rightarrow>
          (case validate_instance env sch instance f of
             Inl exc \<Rightarrow> Some exc
           | Inr errors \<Rightarrow> None))"

definition file_invalid :: "'j env \<Rightarrow> 'j \<Rightarrow> posix_path \<Rightarrow> bool" where
  "file_invalid env sch f =
     (case load_json env f of
        Inl exc \<Rightarrow> True
      | Inr instance \<Rightarrow>
          (case validate_instance env sch instance f of
             Inl exc \<Rightarrow> False
           | Inr errors \<Rightarrow> errors \<noteq> []))"

definition file_clean :: "'j env \<Rightarrow> 'j \<Rightarrow> posix_path \<Rightarrow> bool" where
  "file_clean env sch f =
     (case load_json env f of
        Inl exc \<Rightarrow> False
      | Inr instance \<Rightarrow> validate_instance env sch instance f = Inr [])"

definition file_errors :: "'j env \<Rightarrow> 'j \<Rightarrow> posix_path \<Rightarrow> string list" where
  "file_errors env sch f =
     (case load_json env f of
        Inl exc \<Rightarrow> [str_path f @ '': JSON parse error: '' @ str_exn exc]
      | Inr instance \<Rightarrow>
          (case validate_instance env sch instance f of
             Inl exc \<Rightarrow> []
           | Inr errors \<Rightarrow> errors))"

definition ok_lines :: "'j env \<Rightarrow> bool \<Rightarrow> 'j \<Rightarrow> posix_path list \<Rightarrow> string list" where
  "ok_lines env q sch fs =
     (if q then [] else map (\<lambda>f. ''OK: '' @ str_path f) (filter (file_clean env sch) fs))"

text \<open>The loop state after the files \<open>fs\<close>, none of which makes the validator raise.\<close>

definition after_files :: "'j env \<Rightarrow> bool \<Rightarrow> 'j \<Rightarrow> posix_path list \<Rightarrow> loop_state \<Rightarrow> loop_state" where
  "after_files env q sch fs st =
     st\<lparr>total_c := total_c st + int (length fs),
        invalid := invalid st + int (length (filter (file_invalid env sch) fs)),
        all_errors := all_errors st @ concat (map (file_errors env sch) fs),
        out := out st @ ok_lines env q sch fs\<rparr>"

subsection \<open>A repository to run the script on\<close>

text \<open>
  Parsed documents for the examples, and a small repository: a schema that requires an
  object with a \<^verbatim>\<open>width\<close> and integer \<^verbatim>\<open>sizes\<close>, and four \<^verbatim>\<open>trafic.json\<close> files under
  \<^verbatim>\<open>logo/\<close>: \<^verbatim>\<open>a\<close> lacks the width, \<^verbatim>\<open>b\<close> is valid, \<^verbatim>\<open>c\<close> is truncated, \<^verbatim>\<open>d\<close> has three
  violations. A second schema names a type that does not exist, on which the validator
  raises. The file texts are abbreviated; the validator of the example reports for these
  documents the errors \<^verbatim>\<open>jsonschema\<close> reports, at the same paths and in the same order,
  with shortened messages. The directory listing is not in
  sorted order; a path exists when it is a prefix of a listed file.
\<close>

datatype json =
  JNull | JBool bool | JInt int | JStr string | JArr "json list" | JObj "(string \<times> json) list"

definition demo_schema :: json where
  "demo_schema =
     JObj [(''type'', JStr ''object''),
           (''properties'',
              JObj [(''sizes'', JObj [(''type'', JStr ''array''),
                                      (''items'', JObj [(''type'', JStr ''integer'')])])]),
           (''required'', JArr [JStr ''width''])]"

definition bad_schema :: json where
  "bad_schema = JObj [(''type'', JStr ''objet'')]"

definition doc_a :: json where
  "doc_a = JObj [(''height'', JInt 5)]"

definition doc_b :: json where
  "doc_b = JObj [(''width'', JInt 3)]"

definition doc_d :: json where
  "doc_d = JObj [(''sizes'', JArr [JInt 1, JStr ''x'', JStr ''y''])]"

definition demo_texts :: "(posix_path \<times> string) list" where
  "demo_texts =
     [([''schema.json''], ''SCHEMA''),
      ([''bad.schema.json''], ''BAD''),
      ([''docs'', ''README.md''], ''# Assets''),
      ([''logo'', ''a'', ''trafic.json''], ''A''),
      ([''logo'', ''b'', ''trafic.json''], ''B''),
      ([''logo'', ''c'', ''trafic.json''], ''C''),
      ([''logo'', ''d'', ''trafic.json''], ''D'')]"

definition demo_loads :: "string \<Rightarrow> exn + json" where
  "demo_loads txt =
     (if txt = ''SCHEMA'' then Inr demo_schema
      else if txt = ''BAD'' then Inr bad_schema
      else if txt = ''A'' then Inr doc_a
      else if txt = ''B'' then Inr doc_b
      else if txt = ''D'' then Inr doc_d
      else Inl (Exception ''Expecting value: line 1 column 11 (char 10)''))"

definition required_width :: verror where
  "required_width =
     \<lparr>path = [], absolute_path = [], message = ''width is a required property''\<rparr>"

definition not_integer :: "int \<Rightarrow> verror" where
  "not_integer i =
     \<lparr>path = [Key ''sizes'', Idx i], absolute_path = [Key ''sizes'', Idx i],
      message = ''not of type integer''\<rparr>"

definition demo_iter_errors :: "json \<Rightarrow> json \<Rightarrow> exn + verror list" where
  "demo_iter_errors sch instance =
     (if sch = bad_schema then Inl (Exception ''Unknown type objet'')
      else if sch \<noteq> demo_schema then Inr []
      else if instance = doc_a then Inr [required_width]
      else if instance = doc_d then Inr [not_integer 1, not_integer 2, required_width]
      else Inr [])"

definition demo_listing :: "posix_path list" where
  "demo_listing =
     [[''schema.json''], [''bad.schema.json''], [''docs'', ''README.md''],
      [''logo'', ''b'', ''trafic.json''], [''logo'', ''d'', ''trafic.json''],
      [''logo'', ''a'', ''trafic.json''], [''logo'', ''c'', ''trafic.json'']]"

definition demo_env :: "json env" where
  "demo_env =
     \<lparr>fs_exists = (\<lambda>p. list_ex (\<lambda>f. take (length p) f = p) demo_listing),
      rglob = (\<lambda>d pat.
         filter (\<lambda>f. length d < length f \<and> take (length d) f = d \<and> last f = pat) demo_listing),
      read_text = (\<lambda>p. case map_of demo_texts p of
                          None \<Rightarrow> Inl (Exception ''No such file or directory'')
                        | Some txt \<Rightarrow> Inr txt),
      json_loads = demo_loads,
      iter_errors = demo_iter_errors\<rparr>"

definition demo_args :: args where
  "demo_args = \<lparr>schema = [''schema.json''], root = [], logo_dir = None, quiet = False\<rparr>"

section \<open>Properties\<close>

subsection \<open>The loop and the shape of a run\<close>

lemma file_trichotomy:
  "file_clean env sch f \<or> file_invalid env sch f \<or> file_crash env sch f \<noteq> None"
  by (auto simp: file_clean_def file_invalid_def file_crash_def split: sum.splits)

lemma file_clean_iff:
  "file_clean env sch f \<longleftrightarrow> \<not> file_invalid env sch f \<and> file_crash env sch f = None"
  by (auto simp: file_clean_def file_invalid_def file_crash_def split: sum.splits)

lemma check_file_no_crash:
  "file_crash env sch f = None \<Longrightarrow>
   check_file env q sch f st = Inr (after_files env q sch [f] st)"
  by (auto simp: check_file_def file_crash_def file_invalid_def file_errors_def
        file_clean_def ok_lines_def after_files_def Let_def split: sum.splits)

lemma check_file_crash:
  "file_crash env sch f = Some exc \<Longrightarrow>
   check_file env q sch f st = Inl (exc, st\<lparr>total_c := total_c st + 1\<rparr>)"
  by (auto simp: check_file_def file_crash_def Let_def split: sum.splits)

lemma after_files_Nil: "after_files env q sch [] st = st"
  by (simp add: after_files_def ok_lines_def)

lemma after_files_Cons:
  "after_files env q sch (f # fs) st = after_files env q sch fs (after_files env q sch [f] st)"
  by (simp add: after_files_def ok_lines_def)

lemma check_files_no_crash:
  "\<forall>f\<in>set fs. file_crash env sch f = None \<Longrightarrow>
   check_files env q sch fs st = Inr (after_files env q sch fs st)"
proof (induction fs arbitrary: st)
  case Nil
  show ?case by (simp add: after_files_Nil)
next
  case (Cons f fs)
  then show ?case
    by (simp add: check_file_no_crash after_files_Cons [of env q sch f fs])
qed

lemma check_files_append:
  "check_files env q sch (xs @ ys) st =
     (case check_files env q sch xs st of
        Inl crash \<Rightarrow> Inl crash
      | Inr st' \<Rightarrow> check_files env q sch ys st')"
  by (induction xs arbitrary: st) (auto split: sum.splits)

lemma check_files_crash:
  assumes "\<forall>f\<in>set xs. file_crash env sch f = None" and "file_crash env sch f = Some exc"
  shows "check_files env q sch (xs @ f # ys) st =
           Inl (exc, (after_files env q sch xs st)\<lparr>total_c := total_c st + int (length xs) + 1\<rparr>)"
  using assms
  by (simp add: check_files_append check_files_no_crash check_file_crash after_files_def)

lemma first_crash:
  assumes "\<exists>f\<in>set fs. file_crash env sch f \<noteq> None"
  shows "\<exists>xs f exc ys. fs = xs @ f # ys \<and> (\<forall>g\<in>set xs. file_crash env sch g = None)
           \<and> file_crash env sch f = Some exc"
proof -
  from assms obtain xs f ys where "fs = xs @ f # ys" "file_crash env sch f \<noteq> None"
    "\<forall>g\<in>set xs. \<not> file_crash env sch g \<noteq> None"
    using split_list_first_prop [of fs "\<lambda>f. file_crash env sch f \<noteq> None"] by blast
  then show ?thesis by auto
qed

lemma check_files_Inr_iff:
  "(\<exists>st'. check_files env q sch fs st = Inr st') \<longleftrightarrow> (\<forall>f\<in>set fs. file_crash env sch f = None)"
proof
  assume "\<exists>st'. check_files env q sch fs st = Inr st'"
  then obtain st' where r: "check_files env q sch fs st = Inr st'" ..
  show "\<forall>f\<in>set fs. file_crash env sch f = None"
  proof (rule ccontr)
    assume "\<not> (\<forall>f\<in>set fs. file_crash env sch f = None)"
    then have "\<exists>f\<in>set fs. file_crash env sch f \<noteq> None" by simp
    from first_crash [OF this] obtain xs f exc ys where
      "fs = xs @ f # ys" "\<forall>g\<in>set xs. file_crash env sch g = None" "file_crash env sch f = Some exc"
      by blast
    with r show False by (simp add: check_files_crash)
  qed
next
  assume "\<forall>f\<in>set fs. file_crash env sch f = None"
  then show "\<exists>st'. check_files env q sch fs st = Inr st'"
    by (simp add: check_files_no_crash)
qed

lemma length_filter_sort: "length (filter P (sort xs)) = length (filter P xs)"
  by (metis mset_filter mset_sort size_mset)

lemma sort_eq_Nil_iff: "sort xs = [] \<longleftrightarrow> xs = []"
  by (metis length_sort length_0_conv)

lemma main_schema_missing:
  "\<not> fs_exists env (schema a) \<Longrightarrow>
   main env a = \<lparr>stdout = [], stderr = [''ERROR: schema file not found at '' @ str_path (schema a)],
                 ret = Inr 2\<rparr>"
  by (simp add: main_def)

lemma main_schema_unparseable:
  "fs_exists env (schema a) \<Longrightarrow> load_json env (schema a) = Inl exc \<Longrightarrow>
   main env a =
     \<lparr>stdout = [],
      stderr = [''ERROR: failed to load schema '' @ str_path (schema a) @ '': '' @ str_exn exc],
      ret = Inr 2\<rparr>"
  by (simp add: main_def)

lemma main_no_files:
  "schema_loaded env a sch \<Longrightarrow> discovered env a = [] \<Longrightarrow>
   main env a = \<lparr>stdout = [''No trafic.json files found under '' @ str_path (search_dir a)],
                 stderr = [], ret = Inr 0\<rparr>"
  by (simp add: main_def schema_loaded_def discovered_def search_dir_def Let_def)

lemma main_loop:
  "schema_loaded env a sch \<Longrightarrow> discovered env a \<noteq> [] \<Longrightarrow>
   main env a =
     (case check_files env (quiet a) sch (sort (discovered env a)) init_state of
        Inl (exc, st) \<Rightarrow> \<lparr>stdout = out st, stderr = [], ret = Inl exc\<rparr>
      | Inr st \<Rightarrow>
          \<lparr>stdout = out st @ error_listing (all_errors st) @ [summary_line (total_c st) (invalid st)],
           stderr = [],
           ret = Inr (if invalid st \<noteq> 0 then 1 else 0)\<rparr>)"
  by (simp add: main_def schema_loaded_def discovered_def init_state_def Let_def)

lemma main_completes:
  assumes "schema_loaded env a sch" and "discovered env a \<noteq> []"
    and "\<forall>f\<in>set (discovered env a). file_crash env sch f = None"
  shows "main env a =
     \<lparr>stdout = ok_lines env (quiet a) sch (sort (discovered env a))
                 @ error_listing (concat (map (file_errors env sch) (sort (discovered env a))))
                 @ [summary_line (int (length (discovered env a)))
                      (int (length (filter (file_invalid env sch) (discovered env a))))],
      stderr = [],
      ret = Inr (if \<exists>f\<in>set (discovered env a). file_invalid env sch f then 1 else 0)\<rparr>"
proof -
  let ?fs = "sort (discovered env a)"
  have "\<forall>f\<in>set ?fs. file_crash env sch f = None"
    using assms(3) by simp
  then have "check_files env (quiet a) sch ?fs init_state = Inr (after_files env (quiet a) sch ?fs init_state)"
    by (rule check_files_no_crash)
  moreover have "(filter (file_invalid env sch) (discovered env a) \<noteq> []) \<longleftrightarrow>
      (\<exists>f\<in>set (discovered env a). file_invalid env sch f)"
    by (simp add: filter_empty_conv)
  ultimately show ?thesis
    using assms(1,2)
    by (simp add: main_loop after_files_def init_state_def length_filter_sort)
qed

lemma main_crashes:
  assumes "schema_loaded env a sch"
    and "sort (discovered env a) = xs @ f # ys"
    and "\<forall>g\<in>set xs. file_crash env sch g = None" and "file_crash env sch f = Some exc"
  shows "main env a = \<lparr>stdout = ok_lines env (quiet a) sch xs, stderr = [], ret = Inl exc\<rparr>"
proof -
  have "discovered env a \<noteq> []"
    using assms(2) by (metis sort_eq_Nil_iff append_is_Nil_conv list.distinct(1))
  then show ?thesis
    using assms
    by (simp add: main_loop check_files_crash after_files_def init_state_def)
qed

subsection \<open>Exit status\<close>

text \<open>
  Claim C1. The exit status of the process is 2 when the schema file does not exist or does
  not load, and then nothing is printed on standard output and the run depends on nothing
  but the schema file (no file is searched for, read or validated); it is 0 when the schema
  loads and every discovered file is clean, which includes the run that discovers no file;
  it is 1 when the schema loads and at least one discovered file is invalid.
\<close>

theorem exit_code_cases:
  "(\<not> fs_exists env (schema a) \<or> (\<exists>exc. load_json env (schema a) = Inl exc) \<longrightarrow>
      exit_code (main env a) = 2 \<and> stdout (main env a) = [] \<and>
      (\<forall>env'. fs_exists env' (schema a) = fs_exists env (schema a)
          \<and> load_json env' (schema a) = load_json env (schema a) \<longrightarrow> main env' a = main env a))
   \<and> (schema_loaded env a sch \<and> (\<forall>f\<in>set (discovered env a). file_clean env sch f) \<longrightarrow>
        exit_code (main env a) = 0)
   \<and> (schema_loaded env a sch \<and> (\<exists>f\<in>set (discovered env a). file_invalid env sch f) \<longrightarrow>
        exit_code (main env a) = 1)"
proof (intro conjI impI)
  assume bad: "\<not> fs_exists env (schema a) \<or> (\<exists>exc. load_json env (schema a) = Inl exc)"
  then consider (missing) "\<not> fs_exists env (schema a)"
    | (unparseable) exc where "fs_exists env (schema a)" "load_json env (schema a) = Inl exc"
    by blast
  then have "exit_code (main env a) = 2 \<and> stdout (main env a) = [] \<and>
      (\<forall>env'. fs_exists env' (schema a) = fs_exists env (schema a)
          \<and> load_json env' (schema a) = load_json env (schema a) \<longrightarrow> main env' a = main env a)"
  proof cases
    case missing
    then show ?thesis by (simp add: main_schema_missing exit_code_def)
  next
    case unparseable
    then show ?thesis by (simp add: main_schema_unparseable exit_code_def)
  qed
  then show "exit_code (main env a) = 2" and "stdout (main env a) = []"
    and "\<forall>env'. fs_exists env' (schema a) = fs_exists env (schema a)
          \<and> load_json env' (schema a) = load_json env (schema a) \<longrightarrow> main env' a = main env a"
    by blast+
next
  assume h: "schema_loaded env a sch \<and> (\<forall>f\<in>set (discovered env a). file_clean env sch f)"
  then have sl: "schema_loaded env a sch"
    and nc: "\<forall>f\<in>set (discovered env a). file_crash env sch f = None"
    and ni: "\<not> (\<exists>f\<in>set (discovered env a). file_invalid env sch f)"
    by (auto simp: file_clean_iff)
  show "exit_code (main env a) = 0"
  proof (cases "discovered env a = []")
    case True
    from main_no_files [OF sl True] show ?thesis by (simp add: exit_code_def)
  next
    case False
    from main_completes [OF sl False nc] ni show ?thesis by (simp add: exit_code_def)
  qed
next
  assume h: "schema_loaded env a sch \<and> (\<exists>f\<in>set (discovered env a). file_invalid env sch f)"
  then have sl: "schema_loaded env a sch" and ne: "discovered env a \<noteq> []"
    and inv: "\<exists>f\<in>set (discovered env a). file_invalid env sch f"
    by auto
  show "exit_code (main env a) = 1"
  proof (cases "\<forall>f\<in>set (discovered env a). file_crash env sch f = None")
    case True
    from main_completes [OF sl ne True] inv show ?thesis by (simp add: exit_code_def)
  next
    case False
    then have "\<exists>f\<in>set (sort (discovered env a)). file_crash env sch f \<noteq> None" by simp
    from first_crash [OF this] obtain xs f exc ys where
      "sort (discovered env a) = xs @ f # ys" "\<forall>g\<in>set xs. file_crash env sch g = None"
      "file_crash env sch f = Some exc" by blast
    from main_crashes [OF sl this] show ?thesis by (simp add: exit_code_def)
  qed
qed

theorem exit_code_cases_witness:
  "\<not> fs_exists demo_env (schema (demo_args\<lparr>schema := [''missing.json'']\<rparr>))
   \<and> exit_code (main demo_env (demo_args\<lparr>schema := [''missing.json'']\<rparr>)) = 2
   \<and> load_json demo_env (schema (demo_args\<lparr>schema := [''logo'', ''c'', ''trafic.json'']\<rparr>))
       = Inl (Exception ''Expecting value: line 1 column 11 (char 10)'')
   \<and> exit_code (main demo_env (demo_args\<lparr>schema := [''logo'', ''c'', ''trafic.json'']\<rparr>)) = 2
   \<and> schema_loaded demo_env (demo_args\<lparr>logo_dir := Some [''logo'', ''b'']\<rparr>) demo_schema
   \<and> list_all (file_clean demo_env demo_schema)
        (discovered demo_env (demo_args\<lparr>logo_dir := Some [''logo'', ''b'']\<rparr>))
   \<and> exit_code (main demo_env (demo_args\<lparr>logo_dir := Some [''logo'', ''b'']\<rparr>)) = 0
   \<and> schema_loaded demo_env demo_args demo_schema
   \<and> list_ex (file_invalid demo_env demo_schema) (discovered demo_env demo_args)
   \<and> exit_code (main demo_env demo_args) = 1"
proof -
  have h1: "\<not> fs_exists demo_env (schema (demo_args\<lparr>schema := [''missing.json'']\<rparr>))"
    by code_simp
  have h2: "load_json demo_env (schema (demo_args\<lparr>schema := [''logo'', ''c'', ''trafic.json'']\<rparr>))
       = Inl (Exception ''Expecting value: line 1 column 11 (char 10)'')"
    by code_simp
  have h3: "schema_loaded demo_env (demo_args\<lparr>logo_dir := Some [''logo'', ''b'']\<rparr>) demo_schema"
    by code_simp
  have h4: "list_all (file_clean demo_env demo_schema)
        (discovered demo_env (demo_args\<lparr>logo_dir := Some [''logo'', ''b'']\<rparr>))"
    by code_simp
  have h5: "schema_loaded demo_env demo_args demo_schema"
    by code_simp
  have h6: "list_ex (file_invalid demo_env demo_schema) (discovered demo_env demo_args)"
    by code_simp
  show ?thesis
    using h1 h2 h3 h4 h5 h6
      h4 [unfolded list_all_iff] h6 [unfolded list_ex_iff]
      exit_code_cases [of demo_env "demo_args\<lparr>schema := [''missing.json'']\<rparr>" demo_schema]
      exit_code_cases [of demo_env "demo_args\<lparr>schema := [''logo'', ''c'', ''trafic.json'']\<rparr>" demo_schema]
      exit_code_cases [of demo_env "demo_args\<lparr>logo_dir := Some [''logo'', ''b'']\<rparr>" demo_schema]
      exit_code_cases [of demo_env demo_args demo_schema]
    by blast
qed

lemma main_returns_iff:
  assumes "schema_loaded env a sch" and "discovered env a \<noteq> []"
  shows "(\<exists>c. ret (main env a) = Inr c) \<longleftrightarrow>
         (\<forall>f\<in>set (discovered env a). file_crash env sch f = None)"
proof
  assume r: "\<exists>c. ret (main env a) = Inr c"
  show "\<forall>f\<in>set (discovered env a). file_crash env sch f = None"
  proof (rule ccontr)
    assume "\<not> (\<forall>f\<in>set (discovered env a). file_crash env sch f = None)"
    then have "\<exists>f\<in>set (sort (discovered env a)). file_crash env sch f \<noteq> None" by simp
    from first_crash [OF this] obtain xs f exc ys where
      "sort (discovered env a) = xs @ f # ys" "\<forall>g\<in>set xs. file_crash env sch g = None"
      "file_crash env sch f = Some exc" by blast
    from main_crashes [OF assms(1) this] r show False by simp
  qed
next
  assume "\<forall>f\<in>set (discovered env a). file_crash env sch f = None"
  from main_completes [OF assms this] show "\<exists>c. ret (main env a) = Inr c" by simp
qed

lemma check_file_Inr:
  assumes "check_file env q sch f st = Inr st'"
  shows "file_crash env sch f = None \<and> st' = after_files env q sch [f] st"
proof (cases "file_crash env sch f")
  case None
  with assms show ?thesis by (simp add: check_file_no_crash)
next
  case (Some exc)
  with assms show ?thesis by (simp add: check_file_crash)
qed

subsection \<open>Counting invalid files\<close>

text \<open>
  Claim C2. In a run that reaches the summary, the invalid count reported is the number
  of discovered files that are invalid (they fail to parse, or produce at least one
  violation), each counted once: one iteration of the loop adds exactly 1 to the counter
  for an invalid file and nothing for another one, whatever the number of error lines the
  file contributes. The discovered files being distinct, this is the number of distinct
  invalid files.
\<close>

theorem invalid_counted_once:
  assumes "schema_loaded env a sch" and "discovered env a \<noteq> []"
    and "ret (main env a) = Inr c"
  shows "last (stdout (main env a)) =
           summary_line (int (length (discovered env a)))
             (int (length (filter (file_invalid env sch) (discovered env a))))
       \<and> (distinct (discovered env a) \<longrightarrow>
            length (filter (file_invalid env sch) (discovered env a)) =
            card {f \<in> set (discovered env a). file_invalid env sch f})
       \<and> (\<forall>f st st'. check_file env (quiet a) sch f st = Inr st' \<longrightarrow>
            invalid st' = invalid st + (if file_invalid env sch f then 1 else 0)
            \<and> all_errors st' = all_errors st @ file_errors env sch f)"
proof (intro conjI allI impI)
  have nc: "\<forall>f\<in>set (discovered env a). file_crash env sch f = None"
    using main_returns_iff [OF assms(1,2)] assms(3) by blast
  from main_completes [OF assms(1,2) nc]
  show "last (stdout (main env a)) =
           summary_line (int (length (discovered env a)))
             (int (length (filter (file_invalid env sch) (discovered env a))))"
    by simp
next
  assume "distinct (discovered env a)"
  then show "length (filter (file_invalid env sch) (discovered env a)) =
            card {f \<in> set (discovered env a). file_invalid env sch f}"
    by (simp add: distinct_length_filter Int_def conj_commute)
next
  fix f st st'
  assume "check_file env (quiet a) sch f st = Inr st'"
  from check_file_Inr [OF this]
  show "invalid st' = invalid st + (if file_invalid env sch f then 1 else 0)"
    and "all_errors st' = all_errors st @ file_errors env sch f"
    by (simp_all add: after_files_def)
qed

theorem invalid_counted_once_witness:
  "schema_loaded demo_env demo_args demo_schema
   \<and> discovered demo_env demo_args \<noteq> []
   \<and> ret (main demo_env demo_args) = Inr 1
   \<and> last (stdout (main demo_env demo_args)) = summary_line 4 3
   \<and> length (filter (file_invalid demo_env demo_schema) (discovered demo_env demo_args)) = 3
   \<and> length (concat (map (file_errors demo_env demo_schema) (discovered demo_env demo_args))) = 5
   \<and> distinct (discovered demo_env demo_args)
   \<and> card {f \<in> set (discovered demo_env demo_args). file_invalid demo_env demo_schema f} = 3"
proof -
  have h1: "schema_loaded demo_env demo_args demo_schema" by code_simp
  have h2: "discovered demo_env demo_args \<noteq> []" by code_simp
  have h3: "ret (main demo_env demo_args) = Inr 1" by code_simp
  have h4: "length (filter (file_invalid demo_env demo_schema) (discovered demo_env demo_args)) = 3"
    by code_simp
  have h5: "length (concat (map (file_errors demo_env demo_schema) (discovered demo_env demo_args))) = 5"
    by code_simp
  have h6: "distinct (discovered demo_env demo_args)" by code_simp
  have h7: "length (discovered demo_env demo_args) = 4" by code_simp
  from invalid_counted_once [OF h1 h2 h3] h4 h5 h6 h7 h1 h2 h3
  show ?thesis by simp
qed

subsection \<open>A file that does not parse\<close>

text \<open>
  Inside the loop, a file that does not load as JSON adds 1 to the total, 1 to the invalid
  count and one error line, and the loop goes on with the remaining files from that state.
\<close>

lemma check_files_parse_failure:
  assumes "load_json env f = Inl exc"
  shows "check_files env q sch (f # fs) st =
           check_files env q sch fs
             (st\<lparr>total_c := total_c st + 1,
                 invalid := invalid st + 1,
                 all_errors := all_errors st @ [str_path f @ '': JSON parse error: '' @ str_exn exc]\<rparr>)"
  using assms by (simp add: check_file_def Let_def)

lemma parse_failure_file:
  assumes "load_json env f = Inl exc"
  shows "file_errors env sch f = [str_path f @ '': JSON parse error: '' @ str_exn exc]"
    and "file_invalid env sch f" and "file_crash env sch f = None"
  using assms by (simp_all add: file_errors_def file_invalid_def file_crash_def)

text \<open>
  Claim C3, as stated, fails: only \<open>load_json\<close> is inside the \<^verbatim>\<open>try\<close>, and the error lines
  are printed after the loop. In the example repository checked against the schema whose
  type name does not exist, the file \<^verbatim>\<open>logo/c/trafic.json\<close> is discovered and does not
  parse, but the validator raises on \<^verbatim>\<open>logo/a/trafic.json\<close>, the first file in sorted
  order: the exception leaves \<open>main\<close>, nothing is printed, and no error is reported for the
  file that does not parse.
\<close>

theorem parse_failure_lost_counterexample:
  "schema_loaded demo_env (demo_args\<lparr>schema := [''bad.schema.json'']\<rparr>) bad_schema
   \<and> [''logo'', ''c'', ''trafic.json'']
       \<in> set (discovered demo_env (demo_args\<lparr>schema := [''bad.schema.json'']\<rparr>))
   \<and> load_json demo_env [''logo'', ''c'', ''trafic.json'']
       = Inl (Exception ''Expecting value: line 1 column 11 (char 10)'')
   \<and> main demo_env (demo_args\<lparr>schema := [''bad.schema.json'']\<rparr>)
       = \<lparr>stdout = [], stderr = [], ret = Inl (Exception ''Unknown type objet'')\<rparr>"
  by code_simp

text \<open>
  Claim C3, amended. In a run that loads the schema and in which the validator raises on
  none of the discovered files, a discovered file \<open>f\<close> that does not load as JSON is
  recorded and does not stop the batch: \<open>main\<close> returns 1; the error listing printed holds,
  at the place of \<open>f\<close> in the sorted order of the files, exactly one line for \<open>f\<close>, made of
  its path, \<^verbatim>\<open>JSON parse error\<close> and the text of the exception, between the error lines of
  the files before it and those of the files after it; the file is counted as invalid; and
  the summary counts every discovered file.
\<close>

theorem parse_failure_recorded:
  assumes "schema_loaded env a sch"
    and "\<forall>g\<in>set (discovered env a). file_crash env sch g = None"
    and "f \<in> set (discovered env a)"
    and "load_json env f = Inl exc"
  shows "\<exists>xs ys. sort (discovered env a) = xs @ f # ys
           \<and> main env a =
               \<lparr>stdout =
                  ok_lines env (quiet a) sch (sort (discovered env a))
                  @ error_listing
                      (concat (map (file_errors env sch) xs)
                       @ [str_path f @ '': JSON parse error: '' @ str_exn exc]
                       @ concat (map (file_errors env sch) ys))
                  @ [summary_line (int (length (discovered env a)))
                       (int (length (filter (file_invalid env sch) (discovered env a))))],
                stderr = [],
                ret = Inr 1\<rparr>
           \<and> file_invalid env sch f
           \<and> 0 < length (filter (file_invalid env sch) (discovered env a))"
proof -
  have ne: "discovered env a \<noteq> []"
    using assms(3) by auto
  have inv: "file_invalid env sch f"
    and errs: "file_errors env sch f = [str_path f @ '': JSON parse error: '' @ str_exn exc]"
    using parse_failure_file [OF assms(4)] by simp_all
  from assms(3) have "f \<in> set (sort (discovered env a))" by simp
  then obtain xs ys where s: "sort (discovered env a) = xs @ f # ys"
    by (meson split_list)
  have c: "concat (map (file_errors env sch) (sort (discovered env a)))
      = concat (map (file_errors env sch) xs)
        @ [str_path f @ '': JSON parse error: '' @ str_exn exc]
        @ concat (map (file_errors env sch) ys)"
    by (simp add: s errs)
  have ex: "\<exists>g\<in>set (discovered env a). file_invalid env sch g"
    using assms(3) inv by blast
  then have pos: "0 < length (filter (file_invalid env sch) (discovered env a))"
    by (simp add: filter_empty_conv)
  have m: "main env a =
               \<lparr>stdout =
                  ok_lines env (quiet a) sch (sort (discovered env a))
                  @ error_listing
                      (concat (map (file_errors env sch) xs)
                       @ [str_path f @ '': JSON parse error: '' @ str_exn exc]
                       @ concat (map (file_errors env sch) ys))
                  @ [summary_line (int (length (discovered env a)))
                       (int (length (filter (file_invalid env sch) (discovered env a))))],
                stderr = [],
                ret = Inr 1\<rparr>"
    using main_completes [OF assms(1) ne assms(2)] ex by (simp only: c if_True)
  from s m inv pos show ?thesis by blast
qed

theorem parse_failure_recorded_witness:
  "schema_loaded demo_env demo_args demo_schema
   \<and> list_all (\<lambda>g. file_crash demo_env demo_schema g = None) (discovered demo_env demo_args)
   \<and> [''logo'', ''c'', ''trafic.json''] \<in> set (discovered demo_env demo_args)
   \<and> load_json demo_env [''logo'', ''c'', ''trafic.json'']
       = Inl (Exception ''Expecting value: line 1 column 11 (char 10)'')
   \<and> ret (main demo_env demo_args) = Inr 1
   \<and> stdout (main demo_env demo_args) =
        [''OK: logo/b/trafic.json'',
         CHR 0x0A # ''Validation errors:'',
         '' - logo/a/trafic.json: / -> width is a required property'',
         '' - logo/c/trafic.json: JSON parse error: Expecting value: line 1 column 11 (char 10)'',
         '' - logo/d/trafic.json: / -> width is a required property'',
         '' - logo/d/trafic.json: /sizes/1 -> not of type integer'',
         '' - logo/d/trafic.json: /sizes/2 -> not of type integer'',
         CHR 0x0A # ''Checked 4 files: 1 valid, 3 invalid'']"
proof -
  have h1: "schema_loaded demo_env demo_args demo_schema" by code_simp
  have h2: "list_all (\<lambda>g. file_crash demo_env demo_schema g = None) (discovered demo_env demo_args)"
    by code_simp
  have h3: "[''logo'', ''c'', ''trafic.json''] \<in> set (discovered demo_env demo_args)"
    by code_simp
  have h4: "load_json demo_env [''logo'', ''c'', ''trafic.json'']
       = Inl (Exception ''Expecting value: line 1 column 11 (char 10)'')"
    by code_simp
  from parse_failure_recorded [OF h1 h2 [unfolded list_all_iff] h3 h4]
  have c1: "ret (main demo_env demo_args) = Inr 1" by auto
  have c2: "stdout (main demo_env demo_args) =
        [''OK: logo/b/trafic.json'',
         CHR 0x0A # ''Validation errors:'',
         '' - logo/a/trafic.json: / -> width is a required property'',
         '' - logo/c/trafic.json: JSON parse error: Expecting value: line 1 column 11 (char 10)'',
         '' - logo/d/trafic.json: / -> width is a required property'',
         '' - logo/d/trafic.json: /sizes/1 -> not of type integer'',
         '' - logo/d/trafic.json: /sizes/2 -> not of type integer'',
         CHR 0x0A # ''Checked 4 files: 1 valid, 3 invalid'']"
    by code_simp
  from h1 h2 h3 h4 c1 c2 show ?thesis by (intro conjI)
qed

subsection \<open>The summary line\<close>

text \<open>
  Claim C4, as stated, fails: a run that loads the schema and discovers no file prints the
  single line \<^verbatim>\<open>No trafic.json files found under ...\<close> and returns 0 before the loop; no
  summary line is printed, in particular not the one with three zero counts.
\<close>

theorem summary_missing_when_no_files_counterexample:
  "schema_loaded demo_env (demo_args\<lparr>logo_dir := Some [''docs'']\<rparr>) demo_schema
   \<and> discovered demo_env (demo_args\<lparr>logo_dir := Some [''docs'']\<rparr>) = []
   \<and> main demo_env (demo_args\<lparr>logo_dir := Some [''docs'']\<rparr>)
       = \<lparr>stdout = [''No trafic.json files found under docs''], stderr = [], ret = Inr 0\<rparr>
   \<and> summary_line 0 0 \<notin> set (stdout (main demo_env (demo_args\<lparr>logo_dir := Some [''docs'']\<rparr>)))"
  by code_simp

text \<open>
  Claim C4, amended. In a run that loads the schema, discovers at least one file and in
  which the validator raises on none of them, \<open>main\<close> returns and the last line printed is
  the summary, with the number of files checked, the number of valid ones and the number
  of invalid ones. A run that loads the schema and discovers no file prints only the line
  saying that no file was found under the directory searched.
\<close>

theorem summary_when_files_found:
  assumes "schema_loaded env a sch"
  shows "(discovered env a = [] \<longrightarrow>
            stdout (main env a) = [''No trafic.json files found under '' @ str_path (search_dir a)])
       \<and> (discovered env a \<noteq> [] \<and> (\<forall>f\<in>set (discovered env a). file_crash env sch f = None) \<longrightarrow>
            (\<exists>c. ret (main env a) = Inr c)
          \<and> stdout (main env a) \<noteq> []
          \<and> last (stdout (main env a)) =
              CHR 0x0A # ''Checked '' @ str_int (int (length (discovered env a)))
                @ '' files: ''
                @ str_int (int (length (filter (\<lambda>f. \<not> file_invalid env sch f) (discovered env a))))
                @ '' valid, ''
                @ str_int (int (length (filter (file_invalid env sch) (discovered env a))))
                @ '' invalid'')"
proof (intro conjI impI)
  assume "discovered env a = []"
  from main_no_files [OF assms this]
  show "stdout (main env a) = [''No trafic.json files found under '' @ str_path (search_dir a)]"
    by simp
next
  assume h: "discovered env a \<noteq> [] \<and> (\<forall>f\<in>set (discovered env a). file_crash env sch f = None)"
  then have ne: "discovered env a \<noteq> []"
    and nc: "\<forall>f\<in>set (discovered env a). file_crash env sch f = None" by auto
  note m = main_completes [OF assms ne nc]
  have len: "int (length (discovered env a))
      - int (length (filter (file_invalid env sch) (discovered env a)))
      = int (length (filter (\<lambda>f. \<not> file_invalid env sch f) (discovered env a)))"
    using sum_length_filter_compl [of "file_invalid env sch" "discovered env a"] by linarith
  from m show "\<exists>c. ret (main env a) = Inr c" by simp
  from m show "stdout (main env a) \<noteq> []" by simp
  from m len show "last (stdout (main env a)) =
              CHR 0x0A # ''Checked '' @ str_int (int (length (discovered env a)))
                @ '' files: ''
                @ str_int (int (length (filter (\<lambda>f. \<not> file_invalid env sch f) (discovered env a))))
                @ '' valid, ''
                @ str_int (int (length (filter (file_invalid env sch) (discovered env a))))
                @ '' invalid''"
    by (simp add: summary_line_def)
qed

theorem summary_when_files_found_witness:
  "schema_loaded demo_env demo_args demo_schema
   \<and> discovered demo_env demo_args \<noteq> []
   \<and> list_all (\<lambda>f. file_crash demo_env demo_schema f = None) (discovered demo_env demo_args)
   \<and> last (stdout (main demo_env demo_args)) = CHR 0x0A # ''Checked 4 files: 1 valid, 3 invalid''
   \<and> schema_loaded demo_env (demo_args\<lparr>logo_dir := Some [''docs'']\<rparr>) demo_schema
   \<and> discovered demo_env (demo_args\<lparr>logo_dir := Some [''docs'']\<rparr>) = []
   \<and> stdout (main demo_env (demo_args\<lparr>logo_dir := Some [''docs'']\<rparr>))
       = [''No trafic.json files found under docs'']"
proof -
  have h1: "schema_loaded demo_env demo_args demo_schema" by code_simp
  have h2: "discovered demo_env demo_args \<noteq> []" by code_simp
  have h3: "list_all (\<lambda>f. file_crash demo_env demo_schema f = None) (discovered demo_env demo_args)"
    by code_simp
  have h4: "schema_loaded demo_env (demo_args\<lparr>logo_dir := Some [''docs'']\<rparr>) demo_schema"
    by code_simp
  have h5: "discovered demo_env (demo_args\<lparr>logo_dir := Some [''docs'']\<rparr>) = []"
    by code_simp
  have v1: "str_int (int (length (discovered demo_env demo_args))) = ''4''" by code_simp
  have v2: "str_int (int (length (filter (\<lambda>f. \<not> file_invalid demo_env demo_schema f)
               (discovered demo_env demo_args)))) = ''1''" by code_simp
  have v3: "str_int (int (length (filter (file_invalid demo_env demo_schema)
               (discovered demo_env demo_args)))) = ''3''" by code_simp
  have v4: "str_path (search_dir (demo_args\<lparr>logo_dir := Some [''docs'']\<rparr>)) = ''docs''"
    by code_simp
  from summary_when_files_found [OF h1] summary_when_files_found [OF h4]
    h1 h2 h3 h3 [unfolded list_all_iff] h4 h5 v1 v2 v3 v4
  show ?thesis by simp
qed

subsection \<open>The counters\<close>

text \<open>
  Claim C10. In a run that reaches the summary, the loop ends in a state whose counters
  satisfy \<open>0 \<le> invalid \<le> total\<close>; the total is the number of discovered files; the valid
  count printed is the total minus the invalid count, and it is the number of discovered
  files that are not invalid.
\<close>

theorem summary_counters:
  assumes "schema_loaded env a sch" and "discovered env a \<noteq> []"
    and "ret (main env a) = Inr c"
  shows "\<exists>st. check_files env (quiet a) sch (sort (discovered env a)) init_state = Inr st
           \<and> 0 \<le> invalid st \<and> invalid st \<le> total_c st
           \<and> total_c st = int (length (discovered env a))
           \<and> total_c st - invalid st
               = int (length (filter (\<lambda>f. \<not> file_invalid env sch f) (discovered env a)))
           \<and> last (stdout (main env a)) =
               CHR 0x0A # ''Checked '' @ str_int (total_c st) @ '' files: ''
                 @ str_int (total_c st - invalid st) @ '' valid, ''
                 @ str_int (invalid st) @ '' invalid''"
proof -
  let ?fs = "sort (discovered env a)"
  have nc: "\<forall>f\<in>set (discovered env a). file_crash env sch f = None"
    using main_returns_iff [OF assms(1,2)] assms(3) by blast
  then have "\<forall>f\<in>set ?fs. file_crash env sch f = None" by simp
  then have r: "check_files env (quiet a) sch ?fs init_state
      = Inr (after_files env (quiet a) sch ?fs init_state)"
    by (rule check_files_no_crash)
  let ?st = "after_files env (quiet a) sch ?fs init_state"
  have t: "total_c ?st = int (length (discovered env a))"
    by (simp add: after_files_def init_state_def)
  have i: "invalid ?st = int (length (filter (file_invalid env sch) (discovered env a)))"
    by (simp add: after_files_def init_state_def length_filter_sort)
  have le: "length (filter (file_invalid env sch) (discovered env a)) \<le> length (discovered env a)"
    by (rule length_filter_le)
  have v: "total_c ?st - invalid ?st
      = int (length (filter (\<lambda>f. \<not> file_invalid env sch f) (discovered env a)))"
    using sum_length_filter_compl [of "file_invalid env sch" "discovered env a"] t i by linarith
  have s: "last (stdout (main env a)) = summary_line (total_c ?st) (invalid ?st)"
    using main_completes [OF assms(1,2) nc] t i by simp
  show ?thesis
    using r t i le v s by (auto simp: summary_line_def)
qed

theorem summary_counters_witness:
  "schema_loaded demo_env demo_args demo_schema
   \<and> discovered demo_env demo_args \<noteq> []
   \<and> ret (main demo_env demo_args) = Inr 1
   \<and> check_files demo_env (quiet demo_args) demo_schema (sort (discovered demo_env demo_args)) init_state
       = Inr \<lparr>total_c = 4, invalid = 3,
              all_errors =
                [''logo/a/trafic.json: / -> width is a required property'',
                 ''logo/c/trafic.json: JSON parse error: Expecting value: line 1 column 11 (char 10)'',
                 ''logo/d/trafic.json: / -> width is a required property'',
                 ''logo/d/trafic.json: /sizes/1 -> not of type integer'',
                 ''logo/d/trafic.json: /sizes/2 -> not of type integer''],
              out = [''OK: logo/b/trafic.json'']\<rparr>
   \<and> last (stdout (main demo_env demo_args)) = CHR 0x0A # ''Checked 4 files: 1 valid, 3 invalid''"
proof -
  have h1: "schema_loaded demo_env demo_args demo_schema" by code_simp
  have h2: "discovered demo_env demo_args \<noteq> []" by code_simp
  have h3: "ret (main demo_env demo_args) = Inr 1" by code_simp
  have r: "check_files demo_env (quiet demo_args) demo_schema (sort (discovered demo_env demo_args)) init_state
       = Inr \<lparr>total_c = 4, invalid = 3,
              all_errors =
                [''logo/a/trafic.json: / -> width is a required property'',
                 ''logo/c/trafic.json: JSON parse error: Expecting value: line 1 column 11 (char 10)'',
                 ''logo/d/trafic.json: / -> width is a required property'',
                 ''logo/d/trafic.json: /sizes/1 -> not of type integer'',
                 ''logo/d/trafic.json: /sizes/2 -> not of type integer''],
              out = [''OK: logo/b/trafic.json'']\<rparr>"
    by code_simp
  have v: "str_int 4 = ''4''" "str_int 1 = ''1''" "str_int 3 = ''3''" by code_simp+
  from summary_counters [OF h1 h2 h3] h1 h2 h3 r v
  show ?thesis by auto
qed

subsection \<open>The violations of one instance\<close>

text \<open>
  Python's comparison of two paths, where it is defined, is the lexicographic order of the
  paths.
\<close>

lemma seg_lt_less: "seg_lt x y = Inr b \<Longrightarrow> b = (x < y)"
  by (cases x; cases y) auto

lemma seg_lt_error: "seg_lt x y = Inl e \<Longrightarrow> e = TypeError"
  by (cases x; cases y) auto

lemma deque_lt_less: "deque_lt p q = Inr b \<Longrightarrow> b = (p < q)"
  by (induction p q rule: deque_lt.induct) (auto split: if_splits dest: seg_lt_less)

lemma deque_lt_error: "deque_lt p q = Inl e \<Longrightarrow> e = TypeError"
  by (induction p q rule: deque_lt.induct) (auto split: if_splits dest: seg_lt_error)

lemma comparable_deque_lt:
  assumes "comparable p q"
  shows "deque_lt p q = Inr (p < q)"
proof (cases "deque_lt p q")
  case (Inl e)
  with deque_lt_error [OF Inl] assms show ?thesis by (simp add: comparable_def)
next
  case (Inr b)
  with deque_lt_less [OF Inr] show ?thesis by simp
qed

lemma location_cases:
  "location e =
     (if absolute_path e = [] then ''/''
      else concat (map (\<lambda>s. ''/'' @ str_seg s) (absolute_path e)))"
  by (cases "absolute_path e") (simp_all add: location_def Let_def)

lemma sorted_by_path_comparable:
  assumes "\<forall>e\<in>set found. \<forall>e'\<in>set found. comparable (path e) (path e')"
  shows "sorted_by_path found = Inr (sort_key path found)"
  using assms by (simp add: sorted_by_path_def list_all_iff)

text \<open>
  Claim C5. When the validator yields the errors \<open>found\<close> for an instance, their paths
  being paths of one document (any two of them comparable), \<open>validate_instance\<close> returns
  one line per error and drops none: the lines render a rearrangement of \<open>found\<close> that is
  ascending by path (no later path is smaller than an earlier one in Python's order; array
  indices compare as numbers) and keeps the validator's order among errors of equal path.
  Each line is the file path, the location and the message, and the location of the
  document root is \<^verbatim>\<open>/\<close>.
\<close>

theorem validate_instance_complete_sorted:
  assumes "iter_errors env sch inst = Inr found"
    and "\<forall>e\<in>set found. \<forall>e'\<in>set found. comparable (path e) (path e')"
  shows "\<exists>errs. validate_instance env sch inst p = Inr (map (error_line p) errs)
           \<and> mset errs = mset found
           \<and> (\<forall>i j. i < j \<and> j < length errs \<longrightarrow>
                 deque_lt (path (errs ! j)) (path (errs ! i)) = Inr False)
           \<and> (\<forall>k. filter (\<lambda>e. path e = k) errs = filter (\<lambda>e. path e = k) found)
           \<and> (\<forall>e\<in>set errs.
                 error_line p e = str_path p @ '': '' @ location e @ '' -> '' @ message e
               \<and> location e =
                   (if absolute_path e = [] then ''/''
                    else concat (map (\<lambda>s. ''/'' @ str_seg s) (absolute_path e))))"
proof -
  let ?errs = "sort_key path found"
  have v: "validate_instance env sch inst p = Inr (map (error_line p) ?errs)"
    using assms by (simp add: validate_instance_def sorted_by_path_comparable)
  have m: "mset ?errs = mset found" by simp
  have s: "sorted (map path ?errs)" by simp
  have asc: "deque_lt (path (?errs ! j)) (path (?errs ! i)) = Inr False"
    if "i < j" "j < length ?errs" for i j
  proof -
    from that have "?errs ! i \<in> set found" "?errs ! j \<in> set found"
      by (metis nth_mem set_sort order.strict_trans)+
    with assms(2) have c: "comparable (path (?errs ! j)) (path (?errs ! i))" by blast
    from that s have "map path ?errs ! i \<le> map path ?errs ! j"
      by (auto simp: sorted_iff_nth_mono)
    with that have "\<not> path (?errs ! j) < path (?errs ! i)" by simp
    with comparable_deque_lt [OF c] show ?thesis by simp
  qed
  have st: "filter (\<lambda>e. path e = k) ?errs = filter (\<lambda>e. path e = k) found" for k
    by (rule sort_key_stable)
  have l: "error_line p e = str_path p @ '': '' @ location e @ '' -> '' @ message e
      \<and> location e = (if absolute_path e = [] then ''/''
                    else concat (map (\<lambda>s. ''/'' @ str_seg s) (absolute_path e)))" for e
    using location_cases [of e] by (simp add: error_line_def)
  from v m asc st l show ?thesis by blast
qed

theorem validate_instance_complete_sorted_witness:
  "iter_errors (demo_env\<lparr>iter_errors := \<lambda>s i. Inr [not_integer 10, not_integer 2, required_width]\<rparr>)
       demo_schema doc_d
     = Inr [not_integer 10, not_integer 2, required_width]
   \<and> list_all (\<lambda>e. list_all (\<lambda>e'. comparable (path e) (path e'))
         [not_integer 10, not_integer 2, required_width])
       [not_integer 10, not_integer 2, required_width]
   \<and> validate_instance
       (demo_env\<lparr>iter_errors := \<lambda>s i. Inr [not_integer 10, not_integer 2, required_width]\<rparr>)
       demo_schema doc_d [''logo'', ''d'', ''trafic.json'']
     = Inr [''logo/d/trafic.json: / -> width is a required property'',
            ''logo/d/trafic.json: /sizes/2 -> not of type integer'',
            ''logo/d/trafic.json: /sizes/10 -> not of type integer'']"
proof -
  let ?env = "demo_env\<lparr>iter_errors := \<lambda>s i. Inr [not_integer 10, not_integer 2, required_width]\<rparr>"
  let ?found = "[not_integer 10, not_integer 2, required_width]"
  have h1: "iter_errors ?env demo_schema doc_d = Inr ?found" by simp
  have h2: "list_all (\<lambda>e. list_all (\<lambda>e'. comparable (path e) (path e')) ?found) ?found"
    by code_simp
  have r: "validate_instance ?env demo_schema doc_d [''logo'', ''d'', ''trafic.json'']
     = Inr [''logo/d/trafic.json: / -> width is a required property'',
            ''logo/d/trafic.json: /sizes/2 -> not of type integer'',
            ''logo/d/trafic.json: /sizes/10 -> not of type integer'']"
    by code_simp
  from validate_instance_complete_sorted [OF h1 h2 [unfolded list_all_iff], of "[''logo'', ''d'', ''trafic.json'']"]
    h1 h2 r
  show ?thesis by simp
qed

subsection \<open>A search directory that does not exist\<close>

text \<open>
  Claim C6, as stated, fails: the schema is loaded before the search, so a run whose
  search directory does not exist and whose schema file does not exist either prints
  nothing on standard output and exits with 2.
\<close>

theorem missing_dir_and_schema_counterexample:
  "\<not> fs_exists demo_env (search_dir (demo_args\<lparr>schema := [''missing.json''], root := [''nowhere'']\<rparr>))
   \<and> exit_code (main demo_env (demo_args\<lparr>schema := [''missing.json''], root := [''nowhere'']\<rparr>)) = 2
   \<and> main demo_env (demo_args\<lparr>schema := [''missing.json''], root := [''nowhere'']\<rparr>)
       = \<lparr>stdout = [], stderr = [''ERROR: schema file not found at missing.json''], ret = Inr 2\<rparr>"
  by code_simp

text \<open>
  Claim C6, amended. In a run that loads the schema and whose search directory does not
  exist, discovery returns the empty list and raises nothing, the only output is the line
  saying that no \<^verbatim>\<open>trafic.json\<close> was found under that directory, and the exit status is 0.
  Below \<^verbatim>\<open>--root\<close> the script tests the existence itself; with \<^verbatim>\<open>--logo-dir\<close> it calls
  \<^verbatim>\<open>rglob\<close> directly, which yields nothing under a directory that does not exist (the
  third assumption).
\<close>

theorem missing_search_dir:
  assumes "schema_loaded env a sch"
    and "\<not> fs_exists env (search_dir a)"
    and "logo_dir a \<noteq> None \<longrightarrow> rglob env (search_dir a) ''trafic.json'' = []"
  shows "(logo_dir a = None \<longrightarrow> find_trafic_files env (root a) = [])
       \<and> discovered env a = []
       \<and> main env a = \<lparr>stdout = [''No trafic.json files found under '' @ str_path (search_dir a)],
                        stderr = [], ret = Inr 0\<rparr>
       \<and> exit_code (main env a) = 0"
proof -
  have f: "logo_dir a = None \<Longrightarrow> find_trafic_files env (root a) = []"
    using assms(2) by (simp add: find_trafic_files_def search_dir_def Let_def)
  have d: "discovered env a = []"
  proof (cases "logo_dir a")
    case None
    with f show ?thesis by (simp add: discovered_def)
  next
    case (Some dir)
    with assms(3) show ?thesis by (simp add: discovered_def search_dir_def)
  qed
  from main_no_files [OF assms(1) d] f d show ?thesis
    by (simp add: exit_code_def)
qed

theorem missing_search_dir_witness:
  "schema_loaded demo_env (demo_args\<lparr>root := [''nowhere'']\<rparr>) demo_schema
   \<and> \<not> fs_exists demo_env (search_dir (demo_args\<lparr>root := [''nowhere'']\<rparr>))
   \<and> logo_dir (demo_args\<lparr>root := [''nowhere'']\<rparr>) = None
   \<and> find_trafic_files demo_env [''nowhere''] = []
   \<and> main demo_env (demo_args\<lparr>root := [''nowhere'']\<rparr>)
       = \<lparr>stdout = [''No trafic.json files found under nowhere/logo''], stderr = [], ret = Inr 0\<rparr>
   \<and> schema_loaded demo_env (demo_args\<lparr>logo_dir := Some [''elsewhere'']\<rparr>) demo_schema
   \<and> \<not> fs_exists demo_env (search_dir (demo_args\<lparr>logo_dir := Some [''elsewhere'']\<rparr>))
   \<and> rglob demo_env (search_dir (demo_args\<lparr>logo_dir := Some [''elsewhere'']\<rparr>)) ''trafic.json'' = []
   \<and> main demo_env (demo_args\<lparr>logo_dir := Some [''elsewhere'']\<rparr>)
       = \<lparr>stdout = [''No trafic.json files found under elsewhere''], stderr = [], ret = Inr 0\<rparr>
   \<and> exit_code (main demo_env (demo_args\<lparr>logo_dir := Some [''elsewhere'']\<rparr>)) = 0"
proof -
  let ?a = "demo_args\<lparr>root := [''nowhere'']\<rparr>"
  let ?b = "demo_args\<lparr>logo_dir := Some [''elsewhere'']\<rparr>"
  have a1: "schema_loaded demo_env ?a demo_schema" by code_simp
  have a2: "\<not> fs_exists demo_env (search_dir ?a)" by code_simp
  have a3: "logo_dir ?a = None" by code_simp
  have a4: "str_path (search_dir ?a) = ''nowhere/logo''" by code_simp
  have a5: "root ?a = [''nowhere'']" by code_simp
  have b1: "schema_loaded demo_env ?b demo_schema" by code_simp
  have b2: "\<not> fs_exists demo_env (search_dir ?b)" by code_simp
  have b3: "rglob demo_env (search_dir ?b) ''trafic.json'' = []" by code_simp
  have b4: "str_path (search_dir ?b) = ''elsewhere''" by code_simp
  from missing_search_dir [OF a1 a2] missing_search_dir [OF b1 b2] a1 a2 a3 a4 a5 b1 b2 b3 b4
  show ?thesis by (simp add: exit_code_def)
qed

subsection \<open>Order of processing\<close>

text \<open>
  Claim C7. The loop runs over the discovered files in ascending order of their paths:
  the confirmation lines, the error lines and the counts of a run are those of the sorted
  list of files, whatever the order in which they were discovered. When the validator
  raises, the files before the first one on which it raises, in that same order, have
  been processed.
\<close>

theorem processed_in_sorted_order:
  assumes "schema_loaded env a sch" and "discovered env a \<noteq> []"
  shows "sorted (sort (discovered env a))
       \<and> mset (sort (discovered env a)) = mset (discovered env a)
       \<and> ((\<forall>f\<in>set (discovered env a). file_crash env sch f = None) \<longrightarrow>
            stdout (main env a) =
              (if quiet a then []
               else map (\<lambda>f. ''OK: '' @ str_path f)
                      (filter (file_clean env sch) (sort (discovered env a))))
              @ error_listing (concat (map (file_errors env sch) (sort (discovered env a))))
              @ [summary_line (int (length (discovered env a)))
                   (int (length (filter (file_invalid env sch) (discovered env a))))])
       \<and> ((\<exists>f\<in>set (discovered env a). file_crash env sch f \<noteq> None) \<longrightarrow>
            (\<exists>xs f ys exc. sort (discovered env a) = xs @ f # ys
               \<and> (\<forall>g\<in>set xs. file_crash env sch g = None)
               \<and> file_crash env sch f = Some exc
               \<and> ret (main env a) = Inl exc
               \<and> stdout (main env a) =
                   (if quiet a then []
                    else map (\<lambda>f. ''OK: '' @ str_path f) (filter (file_clean env sch) xs))))"
proof (intro conjI impI)
  show "sorted (sort (discovered env a))" by simp
  show "mset (sort (discovered env a)) = mset (discovered env a)" by simp
next
  assume nc: "\<forall>f\<in>set (discovered env a). file_crash env sch f = None"
  from main_completes [OF assms nc]
  show "stdout (main env a) =
              (if quiet a then []
               else map (\<lambda>f. ''OK: '' @ str_path f)
                      (filter (file_clean env sch) (sort (discovered env a))))
              @ error_listing (concat (map (file_errors env sch) (sort (discovered env a))))
              @ [summary_line (int (length (discovered env a)))
                   (int (length (filter (file_invalid env sch) (discovered env a))))]"
    by (simp add: ok_lines_def)
next
  assume "\<exists>f\<in>set (discovered env a). file_crash env sch f \<noteq> None"
  then have "\<exists>f\<in>set (sort (discovered env a)). file_crash env sch f \<noteq> None" by simp
  from first_crash [OF this] obtain xs f exc ys where
    s: "sort (discovered env a) = xs @ f # ys" and n: "\<forall>g\<in>set xs. file_crash env sch g = None"
    and c: "file_crash env sch f = Some exc" by blast
  from main_crashes [OF assms(1) s n c] s n c
  show "\<exists>xs f ys exc. sort (discovered env a) = xs @ f # ys
               \<and> (\<forall>g\<in>set xs. file_crash env sch g = None)
               \<and> file_crash env sch f = Some exc
               \<and> ret (main env a) = Inl exc
               \<and> stdout (main env a) =
                   (if quiet a then []
                    else map (\<lambda>f. ''OK: '' @ str_path f) (filter (file_clean env sch) xs))"
    by (auto simp: ok_lines_def)
qed

theorem processed_in_sorted_order_witness:
  "schema_loaded demo_env demo_args demo_schema
   \<and> discovered demo_env demo_args
       = [[''logo'', ''b'', ''trafic.json''], [''logo'', ''d'', ''trafic.json''],
          [''logo'', ''a'', ''trafic.json''], [''logo'', ''c'', ''trafic.json'']]
   \<and> list_all (\<lambda>f. file_crash demo_env demo_schema f = None) (discovered demo_env demo_args)
   \<and> stdout (main demo_env demo_args) =
        (if quiet demo_args then []
         else map (\<lambda>f. ''OK: '' @ str_path f)
                (filter (file_clean demo_env demo_schema) (sort (discovered demo_env demo_args))))
        @ error_listing (concat (map (file_errors demo_env demo_schema) (sort (discovered demo_env demo_args))))
        @ [summary_line (int (length (discovered demo_env demo_args)))
             (int (length (filter (file_invalid demo_env demo_schema) (discovered demo_env demo_args))))]
   \<and> stdout (main demo_env demo_args) =
        [''OK: logo/b/trafic.json'',
         CHR 0x0A # ''Validation errors:'',
         '' - logo/a/trafic.json: / -> width is a required property'',
         '' - logo/c/trafic.json: JSON parse error: Expecting value: line 1 column 11 (char 10)'',
         '' - logo/d/trafic.json: / -> width is a required property'',
         '' - logo/d/trafic.json: /sizes/1 -> not of type integer'',
         '' - logo/d/trafic.json: /sizes/2 -> not of type integer'',
         CHR 0x0A # ''Checked 4 files: 1 valid, 3 invalid'']
   \<and> schema_loaded demo_env (demo_args\<lparr>schema := [''bad.schema.json'']\<rparr>) bad_schema
   \<and> list_ex (\<lambda>f. file_crash demo_env bad_schema f \<noteq> None)
        (discovered demo_env (demo_args\<lparr>schema := [''bad.schema.json'']\<rparr>))
   \<and> (\<exists>exc. ret (main demo_env (demo_args\<lparr>schema := [''bad.schema.json'']\<rparr>)) = Inl exc)"
proof -
  let ?b = "demo_args\<lparr>schema := [''bad.schema.json'']\<rparr>"
  have h1: "schema_loaded demo_env demo_args demo_schema" by code_simp
  have h2: "discovered demo_env demo_args
       = [[''logo'', ''b'', ''trafic.json''], [''logo'', ''d'', ''trafic.json''],
          [''logo'', ''a'', ''trafic.json''], [''logo'', ''c'', ''trafic.json'']]"
    by code_simp
  then have h2': "discovered demo_env demo_args \<noteq> []" by simp
  have h3: "list_all (\<lambda>f. file_crash demo_env demo_schema f = None) (discovered demo_env demo_args)"
    by code_simp
  from processed_in_sorted_order [OF h1 h2'] h3 [unfolded list_all_iff]
  have c1: "stdout (main demo_env demo_args) =
        (if quiet demo_args then []
         else map (\<lambda>f. ''OK: '' @ str_path f)
                (filter (file_clean demo_env demo_schema) (sort (discovered demo_env demo_args))))
        @ error_listing (concat (map (file_errors demo_env demo_schema) (sort (discovered demo_env demo_args))))
        @ [summary_line (int (length (discovered demo_env demo_args)))
             (int (length (filter (file_invalid demo_env demo_schema) (discovered demo_env demo_args))))]"
    by blast
  have c2: "stdout (main demo_env demo_args) =
        [''OK: logo/b/trafic.json'',
         CHR 0x0A # ''Validation errors:'',
         '' - logo/a/trafic.json: / -> width is a required property'',
         '' - logo/c/trafic.json: JSON parse error: Expecting value: line 1 column 11 (char 10)'',
         '' - logo/d/trafic.json: / -> width is a required property'',
         '' - logo/d/trafic.json: /sizes/1 -> not of type integer'',
         '' - logo/d/trafic.json: /sizes/2 -> not of type integer'',
         CHR 0x0A # ''Checked 4 files: 1 valid, 3 invalid'']"
    by code_simp
  have b1: "schema_loaded demo_env ?b bad_schema" by code_simp
  have b2: "discovered demo_env ?b \<noteq> []" by code_simp
  have b3: "list_ex (\<lambda>f. file_crash demo_env bad_schema f \<noteq> None) (discovered demo_env ?b)"
    by code_simp
  from processed_in_sorted_order [OF b1 b2] b3 [unfolded list_ex_iff]
  have c3: "\<exists>exc. ret (main demo_env ?b) = Inl exc" by blast
  from h1 h2 h3 c1 c2 b1 b3 c3 show ?thesis by (intro conjI)
qed

subsection \<open>Running twice\<close>

text \<open>
  Between two runs on the same arguments, schema and directory, the one thing that may
  differ is the order in which the operating system lists the files found. The script
  reads the environment through \<open>fs_exists\<close>, \<open>read_text\<close>, the parser, the validator
  and \<open>rglob\<close> only, and it sorts what \<open>rglob\<close> returns.
\<close>

lemma env_rglob_only:
  fixes env env' :: "'j env"
  assumes "fs_exists env' = fs_exists env" and "read_text env' = read_text env"
    and "json_loads env' = json_loads env" and "iter_errors env' = iter_errors env"
  shows "env' = env\<lparr>rglob := rglob env'\<rparr>"
  using assms by (cases env; cases env') simp

lemma load_json_rglob: "load_json (env\<lparr>rglob := r\<rparr>) = load_json env"
  by (rule ext) (simp add: load_json_def split: sum.splits)

lemma validate_instance_rglob: "validate_instance (env\<lparr>rglob := r\<rparr>) = validate_instance env"
  by (intro ext) (simp add: validate_instance_def split: sum.splits)

lemma check_file_rglob: "check_file (env\<lparr>rglob := r\<rparr>) q sch f st = check_file env q sch f st"
  by (simp add: check_file_def load_json_rglob validate_instance_rglob Let_def split: sum.splits)

lemma check_files_rglob: "check_files (env\<lparr>rglob := r\<rparr>) q sch fs st = check_files env q sch fs st"
  by (induction fs arbitrary: st) (simp_all add: check_file_rglob split: sum.splits)

lemma sort_mset_eq: "mset xs = mset ys \<Longrightarrow> sort xs = sort ys"
  by (metis properties_for_sort sorted_sort mset_sort)

lemma main_rglob:
  assumes "\<forall>d pat. mset (r d pat) = mset (rglob env d pat)"
  shows "main (env\<lparr>rglob := r\<rparr>) a = main env a"
proof -
  let ?files = "\<lambda>e. case logo_dir a of None \<Rightarrow> find_trafic_files e (root a)
                      | Some d \<Rightarrow> rglob e d ''trafic.json''"
  have m: "mset (?files (env\<lparr>rglob := r\<rparr>)) = mset (?files env)"
    using assms by (simp add: find_trafic_files_def Let_def split: option.splits)
  then have s: "sort (?files (env\<lparr>rglob := r\<rparr>)) = sort (?files env)"
    by (rule sort_mset_eq)
  from m have e: "?files (env\<lparr>rglob := r\<rparr>) = [] \<longleftrightarrow> ?files env = []"
    by (metis mset_zero_iff)
  show ?thesis
    unfolding main_def Let_def load_json_rglob check_files_rglob s e
    by simp
qed

text \<open>
  Claim C8. Two runs on the same arguments, in environments with the same files, the same
  parser and validator answers and the same files found by every search (in any order),
  have the same outcome: the same output, hence the same summary counts, and the same
  exit status.
\<close>

theorem rerun_same_result:
  fixes env env' :: "'j env"
  assumes "fs_exists env' = fs_exists env" and "read_text env' = read_text env"
    and "json_loads env' = json_loads env" and "iter_errors env' = iter_errors env"
    and "\<forall>d pat. mset (rglob env' d pat) = mset (rglob env d pat)"
  shows "main env' a = main env a
       \<and> exit_code (main env' a) = exit_code (main env a)
       \<and> stdout (main env' a) = stdout (main env a)"
proof -
  have "env' = env\<lparr>rglob := rglob env'\<rparr>"
    using assms(1-4) by (rule env_rglob_only)
  then have "main env' a = main (env\<lparr>rglob := rglob env'\<rparr>) a" by simp
  also have "\<dots> = main env a"
    using assms(5) by (rule main_rglob)
  finally show ?thesis by simp
qed

theorem rerun_same_result_witness:
  "rglob (demo_env\<lparr>rglob := \<lambda>d pat. rev (rglob demo_env d pat)\<rparr>) [''logo''] ''trafic.json''
     = [[''logo'', ''c'', ''trafic.json''], [''logo'', ''a'', ''trafic.json''],
        [''logo'', ''d'', ''trafic.json''], [''logo'', ''b'', ''trafic.json'']]
   \<and> rglob demo_env [''logo''] ''trafic.json''
     = [[''logo'', ''b'', ''trafic.json''], [''logo'', ''d'', ''trafic.json''],
        [''logo'', ''a'', ''trafic.json''], [''logo'', ''c'', ''trafic.json'']]
   \<and> main (demo_env\<lparr>rglob := \<lambda>d pat. rev (rglob demo_env d pat)\<rparr>) demo_args
     = main demo_env demo_args
   \<and> exit_code (main (demo_env\<lparr>rglob := \<lambda>d pat. rev (rglob demo_env d pat)\<rparr>) demo_args) = 1
   \<and> last (stdout (main (demo_env\<lparr>rglob := \<lambda>d pat. rev (rglob demo_env d pat)\<rparr>) demo_args))
     = CHR 0x0A # ''Checked 4 files: 1 valid, 3 invalid''"
proof -
  let ?env' = "demo_env\<lparr>rglob := \<lambda>d pat. rev (rglob demo_env d pat)\<rparr>"
  have h1: "fs_exists ?env' = fs_exists demo_env" by simp
  have h2: "read_text ?env' = read_text demo_env" by simp
  have h3: "json_loads ?env' = json_loads demo_env" by simp
  have h4: "iter_errors ?env' = iter_errors demo_env" by simp
  have h5: "\<forall>d pat. mset (rglob ?env' d pat) = mset (rglob demo_env d pat)" by simp
  have r1: "rglob ?env' [''logo''] ''trafic.json''
     = [[''logo'', ''c'', ''trafic.json''], [''logo'', ''a'', ''trafic.json''],
        [''logo'', ''d'', ''trafic.json''], [''logo'', ''b'', ''trafic.json'']]"
    by code_simp
  have r2: "rglob demo_env [''logo''] ''trafic.json''
     = [[''logo'', ''b'', ''trafic.json''], [''logo'', ''d'', ''trafic.json''],
        [''logo'', ''a'', ''trafic.json''], [''logo'', ''c'', ''trafic.json'']]"
    by code_simp
  have e: "exit_code (main demo_env demo_args) = 1" by code_simp
  have l: "last (stdout (main demo_env demo_args)) = CHR 0x0A # ''Checked 4 files: 1 valid, 3 invalid''"
    by code_simp
  note t = rerun_same_result [OF h1 h2 h3 h4 h5, of demo_args]
  from t have c1: "main ?env' demo_args = main demo_env demo_args" by blast
  from t e have c2: "exit_code (main ?env' demo_args) = 1" by simp
  from t l have c3: "last (stdout (main ?env' demo_args)) = CHR 0x0A # ''Checked 4 files: 1 valid, 3 invalid''"
    by simp
  from r1 r2 c1 c2 c3 show ?thesis by (intro conjI)
qed

subsection \<open>The quiet flag\<close>

lemma schema_loaded_quiet [simp]: "schema_loaded env (a\<lparr>quiet := q\<rparr>) sch = schema_loaded env a sch"
  by (simp add: schema_loaded_def)

lemma discovered_quiet [simp]: "discovered env (a\<lparr>quiet := q\<rparr>) = discovered env a"
  by (simp add: discovered_def split: option.splits)

lemma search_dir_quiet [simp]: "search_dir (a\<lparr>quiet := q\<rparr>) = search_dir a"
  by (simp add: search_dir_def split: option.splits)

text \<open>
  Claim C9. Two runs that differ in \<^verbatim>\<open>--quiet\<close> only return the same value or raise the
  same exception, have the same exit status and the same standard error, and the output of
  the run without \<^verbatim>\<open>--quiet\<close> is the output of the quiet run (error listing and summary
  included) preceded by confirmation lines \<^verbatim>\<open>OK: <path>\<close> of discovered files.
\<close>

theorem quiet_only_hides_ok_lines:
  "ret (main env (a\<lparr>quiet := True\<rparr>)) = ret (main env (a\<lparr>quiet := False\<rparr>))
   \<and> exit_code (main env (a\<lparr>quiet := True\<rparr>)) = exit_code (main env (a\<lparr>quiet := False\<rparr>))
   \<and> stderr (main env (a\<lparr>quiet := True\<rparr>)) = stderr (main env (a\<lparr>quiet := False\<rparr>))
   \<and> (\<exists>oks. stdout (main env (a\<lparr>quiet := False\<rparr>)) = oks @ stdout (main env (a\<lparr>quiet := True\<rparr>))
         \<and> (\<forall>l\<in>set oks. \<exists>f\<in>set (discovered env a). l = ''OK: '' @ str_path f))"
proof -
  let ?T = "a\<lparr>quiet := True\<rparr>" and ?F = "a\<lparr>quiet := False\<rparr>"
  let ?goal = "\<lambda>rT rF. ret rT = ret rF \<and> stderr rT = stderr rF
     \<and> (\<exists>oks. stdout rF = oks @ stdout rT
           \<and> (\<forall>l\<in>set oks. \<exists>f\<in>set (discovered env a). l = ''OK: '' @ str_path f))"
  have g: "?goal (main env ?T) (main env ?F)"
  proof (cases "fs_exists env (schema a)")
    case False
    then have "main env ?T = main env ?F"
      by (simp add: main_schema_missing)
    then show ?thesis by simp
  next
    case ex: True
    show ?thesis
    proof (cases "load_json env (schema a)")
      case (Inl exc)
      with ex have "main env ?T = main env ?F"
        by (simp add: main_schema_unparseable)
      then show ?thesis by simp
    next
      case (Inr sch)
      with ex have sl: "schema_loaded env ?T sch" "schema_loaded env ?F sch"
        by (simp_all add: schema_loaded_def)
      show ?thesis
      proof (cases "discovered env a = []")
        case True
        then have "discovered env ?T = []" "discovered env ?F = []" by simp_all
        from main_no_files [OF sl(1) this(1)] main_no_files [OF sl(2) this(2)]
        show ?thesis by simp
      next
        case ne: False
        then have neq: "discovered env ?T \<noteq> []" "discovered env ?F \<noteq> []" by simp_all
        show ?thesis
        proof (cases "\<forall>f\<in>set (discovered env a). file_crash env sch f = None")
          case True
          then have nc: "\<forall>f\<in>set (discovered env ?T). file_crash env sch f = None"
            "\<forall>f\<in>set (discovered env ?F). file_crash env sch f = None" by simp_all
          from main_completes [OF sl(1) neq(1) nc(1)] main_completes [OF sl(2) neq(2) nc(2)]
          show ?thesis by (auto simp: ok_lines_def)
        next
          case False
          then have "\<exists>f\<in>set (sort (discovered env a)). file_crash env sch f \<noteq> None" by simp
          from first_crash [OF this] obtain xs f exc ys where
            s: "sort (discovered env a) = xs @ f # ys"
            and n: "\<forall>g\<in>set xs. file_crash env sch g = None"
            and c: "file_crash env sch f = Some exc" by blast
          from s have sT: "sort (discovered env ?T) = xs @ f # ys"
            and sF: "sort (discovered env ?F) = xs @ f # ys" by simp_all
          have sub: "set xs \<subseteq> set (discovered env a)"
            using s by (metis set_sort set_append Un_upper1)
          from main_crashes [OF sl(1) sT n c] main_crashes [OF sl(2) sF n c] sub
          show ?thesis by (auto simp: ok_lines_def)
        qed
      qed
    qed
  qed
  then show ?thesis by (simp add: exit_code_def)
qed

theorem quiet_only_hides_ok_lines_witness:
  "stdout (main demo_env (demo_args\<lparr>quiet := False\<rparr>))
     = [''OK: logo/b/trafic.json''] @ stdout (main demo_env (demo_args\<lparr>quiet := True\<rparr>))
   \<and> ret (main demo_env (demo_args\<lparr>quiet := False\<rparr>)) = Inr 1
   \<and> ret (main demo_env (demo_args\<lparr>quiet := True\<rparr>)) = Inr 1
   \<and> exit_code (main demo_env (demo_args\<lparr>quiet := True\<rparr>)) = 1
   \<and> stderr (main demo_env (demo_args\<lparr>quiet := True\<rparr>)) = []"
proof -
  have o: "stdout (main demo_env (demo_args\<lparr>quiet := False\<rparr>))
     = [''OK: logo/b/trafic.json''] @ stdout (main demo_env (demo_args\<lparr>quiet := True\<rparr>))"
    by code_simp
  have r: "ret (main demo_env (demo_args\<lparr>quiet := False\<rparr>)) = Inr 1" by code_simp
  have x: "exit_code (main demo_env (demo_args\<lparr>quiet := False\<rparr>)) = 1" by code_simp
  have e: "stderr (main demo_env (demo_args\<lparr>quiet := False\<rparr>)) = []" by code_simp
  note t = quiet_only_hides_ok_lines [of demo_env demo_args]
  from t r have c1: "ret (main demo_env (demo_args\<lparr>quiet := True\<rparr>)) = Inr 1" by simp
  from t x have c2: "exit_code (main demo_env (demo_args\<lparr>quiet := True\<rparr>)) = 1" by simp
  from t e have c3: "stderr (main demo_env (demo_args\<lparr>quiet := True\<rparr>)) = []" by simp
  from o r c1 c2 c3 show ?thesis by (intro conjI)
qed

end
